theory Spec2Isabelle
  imports Complex_Main
begin

section \<open>Python values and exceptions\<close>

text \<open>
  The analyzer (\<^verbatim>\<open>audio_analyzer.py\<close>, class \<^verbatim>\<open>MusicAnalyzer\<close>) works on Python
  floats, strings, lists and dictionaries. Floats are modelled as exact reals plus the one
  special value the code itself can produce (\<open>NaN\<close>, from numpy's \<^verbatim>\<open>0/0\<close>); rounding
  error and overflow of IEEE doubles are outside the model. Exceptions are values of
  \<open>py_error\<close>, and a computation that may raise returns \<open>py_error + 'a\<close>.
\<close>

datatype py_error =
  KeyError | TypeError | ValueError | IndexError | ZeroDivisionError | OSError
  | LibraryError string

datatype pyfloat = NaN | Fin real

datatype pyvalue = VFloat pyfloat | VStr string | VList "pyfloat list"

type_synonym features = "string \<rightharpoonup> pyvalue"

definition and_then :: "py_error + 'a \<Rightarrow> ('a \<Rightarrow> py_error + 'b) \<Rightarrow> py_error + 'b" where
  "and_then m f = (case m of Inl e \<Rightarrow> Inl e | Inr x \<Rightarrow> f x)"

text \<open>Float comparison: every comparison with NaN is false.\<close>

fun fgt :: "pyfloat \<Rightarrow> pyfloat \<Rightarrow> bool" where
  "fgt (Fin a) (Fin b) = (a > b)"
| "fgt _ _ = False"

fun flt :: "pyfloat \<Rightarrow> pyfloat \<Rightarrow> bool" where
  "flt (Fin a) (Fin b) = (a < b)"
| "flt _ _ = False"

text \<open>
  \<^verbatim>\<open>v > c\<close> and \<^verbatim>\<open>v < c\<close> for a dictionary value \<open>v\<close> and a numeric literal \<open>c\<close>:
  a string or a list on the left raises TypeError.
\<close>

fun py_gt :: "pyvalue \<Rightarrow> real \<Rightarrow> py_error + bool" where
  "py_gt (VFloat x) c = Inr (fgt x (Fin c))"
| "py_gt (VStr s) c = Inl TypeError"
| "py_gt (VList l) c = Inl TypeError"

fun py_lt :: "pyvalue \<Rightarrow> real \<Rightarrow> py_error + bool" where
  "py_lt (VFloat x) c = Inr (flt x (Fin c))"
| "py_lt (VStr s) c = Inl TypeError"
| "py_lt (VList l) c = Inl TypeError"

text \<open>\<^verbatim>\<open>a and b\<close>: the right operand is evaluated only when the left one is true.\<close>

definition py_and :: "py_error + bool \<Rightarrow> py_error + bool \<Rightarrow> py_error + bool" where
  "py_and a b = and_then a (\<lambda>x. if x then b else Inr False)"

text \<open>
  The format specs \<^verbatim>\<open>:.2f\<close> and \<^verbatim>\<open>:.4f\<close> of the log line: fine on a float,
  ValueError on a string, TypeError on a list.
\<close>

fun py_format_f :: "pyvalue \<Rightarrow> py_error + unit" where
  "py_format_f (VFloat x) = Inr ()"
| "py_format_f (VStr s) = Inl ValueError"
| "py_format_f (VList l) = Inl TypeError"

text \<open>\<^verbatim>\<open>d[k]\<close> on a dictionary raises KeyError on a missing key.\<close>

definition getitem :: "features \<Rightarrow> string \<Rightarrow> py_error + pyvalue" where
  "getitem d k = (case d k of None \<Rightarrow> Inl KeyError | Some v \<Rightarrow> Inr v)"

text \<open>
  \<^verbatim>\<open>round(x, 2)\<close>: Python rounds a float to the nearest multiple of 0.01, a value exactly
  half way going to the even neighbour; NaN stays NaN.
\<close>

definition round_half_even :: "real \<Rightarrow> int" where
  "round_half_even x =
     (let f = \<lfloor>x\<rfloor>; d = x - of_int f
      in if d < 1 / 2 then f else if d > 1 / 2 then f + 1 else if even f then f else f + 1)"

fun py_round2 :: "pyvalue \<Rightarrow> py_error + pyvalue" where
  "py_round2 (VFloat NaN) = Inr (VFloat NaN)"
| "py_round2 (VFloat (Fin x)) = Inr (VFloat (Fin (of_int (round_half_even (x * 100)) / 100)))"
| "py_round2 (VStr s) = Inl TypeError"
| "py_round2 (VList l) = Inl TypeError"

section \<open>numpy reductions\<close>

text \<open>
  \<^verbatim>\<open>np.mean\<close> and \<^verbatim>\<open>np.std\<close> (population standard deviation) of a sequence; on an
  empty sequence numpy warns and returns NaN.
\<close>

definition mean :: "real list \<Rightarrow> real" where
  "mean xs = sum_list xs / real (length xs)"

definition np_mean :: "real list \<Rightarrow> pyfloat" where
  "np_mean xs = (if xs = [] then NaN else Fin (mean xs))"

definition np_std :: "real list \<Rightarrow> pyfloat" where
  "np_std xs =
     (if xs = [] then NaN
      else Fin (sqrt (sum_list (map (\<lambda>x. (x - mean xs)\<^sup>2) xs) / real (length xs))))"

text \<open>\<^verbatim>\<open>np.roll(a, shift)\<close>: the elements move \<open>shift\<close> places to the right, cyclically.\<close>

definition np_roll :: "'a list \<Rightarrow> nat \<Rightarrow> 'a list" where
  "np_roll a shift =
     (let n = length a
      in if n = 0 then a else drop (n - shift mod n) a @ take (n - shift mod n) a)"

text \<open>
  \<^verbatim>\<open>np.corrcoef(x, y)[0, 1]\<close>. numpy stacks the two sequences (ValueError when their
  lengths differ), computes the covariance matrix \<open>c\<close> with divisor \<open>N - 1\<close>, divides
  \<open>c[0,1]\<close> by the square roots of \<open>c[0,0]\<close> and \<open>c[1,1]\<close>, and clips the quotient to
  \<open>[-1, 1]\<close>. A NaN input, a single observation or a zero variance make the result NaN
  (numpy warns, it does not raise).
\<close>

definition dev_sum :: "real list \<Rightarrow> real list \<Rightarrow> real" where
  "dev_sum xs ys = sum_list (map2 (\<lambda>x y. (x - mean xs) * (y - mean ys)) xs ys)"

definition cov :: "real list \<Rightarrow> real list \<Rightarrow> real" where
  "cov xs ys = dev_sum xs ys / (real (length xs) - 1)"

fun fin_list :: "pyfloat list \<Rightarrow> real list option" where
  "fin_list [] = Some []"
| "fin_list (NaN # xs) = None"
| "fin_list (Fin x # xs) = (case fin_list xs of None \<Rightarrow> None | Some ys \<Rightarrow> Some (x # ys))"

definition clip :: "real \<Rightarrow> real" where
  "clip r = min 1 (max (- 1) r)"

definition corr_value :: "pyfloat list \<Rightarrow> int list \<Rightarrow> pyfloat" where
  "corr_value x y =
     (case fin_list x of
        None \<Rightarrow> NaN
      | Some xs \<Rightarrow>
          (let ys = map real_of_int y
           in if length xs \<le> 1 \<or> cov xs xs = 0 \<or> cov ys ys = 0 then NaN
              else Fin (clip (cov xs ys / sqrt (cov xs xs) / sqrt (cov ys ys)))))"

definition np_corrcoef :: "pyfloat list \<Rightarrow> int list \<Rightarrow> py_error + pyfloat" where
  "np_corrcoef x y = (if length x \<noteq> length y then Inl ValueError else Inr (corr_value x y))"

text \<open>
  \<^verbatim>\<open>max(d, key=d.get)\<close> over a dictionary: Python walks the keys in insertion order,
  starts with the first and replaces the current best only when a later score is
  strictly greater (\<^verbatim>\<open>>\<close>); an empty dictionary raises ValueError. The dictionary is an
  association list in insertion order.
\<close>

fun max_loop :: "string \<times> pyfloat \<Rightarrow> (string \<times> pyfloat) list \<Rightarrow> string \<times> pyfloat" where
  "max_loop best [] = best"
| "max_loop best (kv # rest) = max_loop (if fgt (snd kv) (snd best) then kv else best) rest"

definition py_max_key :: "(string \<times> pyfloat) list \<Rightarrow> py_error + string" where
  "py_max_key d = (case d of [] \<Rightarrow> Inl ValueError | kv # rest \<Rightarrow> Inr (fst (max_loop kv rest)))"

section \<open>Tempo reconciliation (extract\_features, lines 37--46)\<close>

definition reconcile_tempo :: "real \<Rightarrow> real \<Rightarrow> real" where
  "reconcile_tempo tempo tempo_alt =
     (if \<bar>tempo - tempo_alt\<bar> > 20 then (tempo + tempo_alt) / 2 else tempo)"

section \<open>Key detection (extract\_features, lines 50--67)\<close>

definition base_profile :: "int list" where
  "base_profile = [1, 0, 1, 0, 1, 1, 0, 1, 0, 1, 0, 1]"

definition key_names :: "string list" where
  "key_names = [''C'', ''C#'', ''D'', ''D#'', ''E'', ''F'', ''F#'', ''G'', ''G#'', ''A'', ''A#'', ''B'']"

definition key_profiles :: "(string \<times> int list) list" where
  "key_profiles = map (\<lambda>(i, key). (key, np_roll base_profile i)) (enumerate 0 key_names)"

fun key_scores :: "pyfloat list \<Rightarrow> (string \<times> int list) list \<Rightarrow> py_error + (string \<times> pyfloat) list" where
  "key_scores chroma_mean [] = Inr []"
| "key_scores chroma_mean ((key, profile) # rest) =
     and_then (np_corrcoef chroma_mean profile) (\<lambda>correlation.
     and_then (key_scores chroma_mean rest) (\<lambda>scores.
     Inr ((key, correlation) # scores)))"

text \<open>The correlation the loop of lines 61--63 stores for key number \<open>j\<close>.\<close>

definition key_score :: "pyfloat list \<Rightarrow> nat \<Rightarrow> pyfloat" where
  "key_score chroma_mean j = corr_value chroma_mean (np_roll base_profile j)"

definition best_key :: "pyfloat list \<Rightarrow> py_error + string" where
  "best_key chroma_mean = and_then (key_scores chroma_mean key_profiles) py_max_key"

definition detect_key :: "real list list \<Rightarrow> py_error + string" where
  "detect_key chroma = best_key (map np_mean chroma)"

section \<open>Feature extraction (extract\_features)\<close>

text \<open>
  The collaborators of \<^verbatim>\<open>extract_features\<close>: the file system and the librosa calls.
  Each is a parameter of the model; a call that raises returns \<open>Inl\<close>. The decoded audio
  is the sample sequence \<open>y\<close> with its sample rate \<open>sr\<close>; feature matrices are lists of
  rows (one row per bin, one column per frame).
\<close>

record env =
  os_path_exists :: "string \<Rightarrow> bool"
  os_path_getsize :: "string \<Rightarrow> py_error + nat"
  librosa_load :: "string \<Rightarrow> py_error + (real list \<times> int)"
  beat_track :: "real list \<Rightarrow> int \<Rightarrow> py_error + real"
  beat_tempo :: "real list \<Rightarrow> int \<Rightarrow> py_error + real list"
  chroma_stft :: "real list \<Rightarrow> int \<Rightarrow> py_error + real list list"
  mfcc :: "real list \<Rightarrow> int \<Rightarrow> py_error + real list list"
  spectral_centroid :: "real list \<Rightarrow> int \<Rightarrow> py_error + real list list"
  zero_crossing_rate :: "real list \<Rightarrow> py_error + real list list"
  spectral_rolloff :: "real list \<Rightarrow> int \<Rightarrow> py_error + real list list"

text \<open>\<^verbatim>\<open>a[0]\<close> on the array \<^verbatim>\<open>librosa.beat.tempo\<close> returns.\<close>

definition first_item :: "'a list \<Rightarrow> py_error + 'a" where
  "first_item a = (case a of [] \<Rightarrow> Inl IndexError | x # _ \<Rightarrow> Inr x)"

text \<open>The dictionary \<^verbatim>\<open>features\<close> as it stands at line 95.\<close>

definition make_features ::
  "real \<Rightarrow> string \<Rightarrow> real list list \<Rightarrow> real list list \<Rightarrow> real list list \<Rightarrow> real list list \<Rightarrow> features" where
  "make_features bpm_value best m sc z ro =
     [''bpm'' \<mapsto> VFloat (Fin bpm_value),
      ''key'' \<mapsto> VStr best,
      ''mfcc_mean'' \<mapsto> VList (map np_mean m),
      ''mfcc_std'' \<mapsto> VList (map np_std m),
      ''spectral_centroid_mean'' \<mapsto> VFloat (np_mean (concat sc)),
      ''spectral_centroid_std'' \<mapsto> VFloat (np_std (concat sc)),
      ''zcr_mean'' \<mapsto> VFloat (np_mean (concat z)),
      ''zcr_std'' \<mapsto> VFloat (np_std (concat z)),
      ''rolloff_mean'' \<mapsto> VFloat (np_mean (concat ro)),
      ''rolloff_std'' \<mapsto> VFloat (np_std (concat ro))]"

text \<open>
  The body of the \<^verbatim>\<open>try\<close> block. \<open>Inr None\<close> is the early \<^verbatim>\<open>return None\<close> for a
  missing file; \<open>Inl e\<close> is an exception raised by a stage. The log line after loading
  computes \<^verbatim>\<open>len(y)/sr\<close>.
\<close>

definition extract_features_body :: "env \<Rightarrow> string \<Rightarrow> py_error + features option" where
  "extract_features_body e audio_path =
     (if \<not> os_path_exists e audio_path then Inr None
      else
        and_then (os_path_getsize e audio_path) (\<lambda>file_size.
        and_then (librosa_load e audio_path) (\<lambda>(y, sr).
        and_then (if sr = 0 then Inl ZeroDivisionError else Inr ()) (\<lambda>_.
        and_then (beat_track e y sr) (\<lambda>tempo.
        and_then (beat_tempo e y sr) (\<lambda>tempos.
        and_then (first_item tempos) (\<lambda>tempo_alt.
        and_then (chroma_stft e y sr) (\<lambda>chroma.
        and_then (detect_key chroma) (\<lambda>best.
        and_then (mfcc e y sr) (\<lambda>m.
        and_then (spectral_centroid e y sr) (\<lambda>sc.
        and_then (zero_crossing_rate e y) (\<lambda>z.
        and_then (spectral_rolloff e y sr) (\<lambda>ro.
        Inr (Some (make_features (reconcile_tempo tempo tempo_alt) best m sc z ro)))))))))))))))"

text \<open>\<^verbatim>\<open>except Exception\<close>: every exception is logged and turned into \<^verbatim>\<open>None\<close>.\<close>

definition extract_features :: "env \<Rightarrow> string \<Rightarrow> features option" where
  "extract_features e audio_path =
     (case extract_features_body e audio_path of Inl err \<Rightarrow> None | Inr r \<Rightarrow> r)"

section \<open>Genre prediction (predict\_genre)\<close>

text \<open>The \<^verbatim>\<open>if\<close>/\<^verbatim>\<open>elif\<close> chain of lines 130--139.\<close>

definition genre_rules :: "pyvalue \<Rightarrow> pyvalue \<Rightarrow> pyvalue \<Rightarrow> py_error + string" where
  "genre_rules bpm_v centroid_v zcr_v =
     and_then (py_and (py_gt bpm_v 140) (py_gt centroid_v 3000)) (\<lambda>c1.
       if c1 then Inr ''Electronic/Dance'' else
     and_then (py_gt bpm_v 120) (\<lambda>c2.
       if c2 then Inr ''Pop/Rock'' else
     and_then (py_and (py_lt centroid_v 2000) (py_lt zcr_v (1 / 10))) (\<lambda>c3.
       if c3 then Inr ''Classical'' else
     and_then (py_and (py_gt centroid_v 2500) (py_lt bpm_v 100)) (\<lambda>c4.
       if c4 then Inr ''Jazz'' else Inr ''Other''))))"

definition predict_genre_body :: "features \<Rightarrow> py_error + string" where
  "predict_genre_body fs =
     and_then (getitem fs ''bpm'') (\<lambda>bpm_v.
     and_then (getitem fs ''spectral_centroid_mean'') (\<lambda>centroid_v.
     and_then (getitem fs ''zcr_mean'') (\<lambda>zcr_v.
     and_then (genre_rules bpm_v centroid_v zcr_v) (\<lambda>genre.
     and_then (py_format_f centroid_v) (\<lambda>_.
     and_then (py_format_f zcr_v) (\<lambda>_.
     Inr genre))))))"

definition predict_genre :: "features \<Rightarrow> string" where
  "predict_genre fs = (case predict_genre_body fs of Inl err \<Rightarrow> ''Unknown'' | Inr genre \<Rightarrow> genre)"

section \<open>Complete analysis (analyze\_song)\<close>

record analysis_result =
  res_key :: pyvalue
  res_bpm :: pyvalue
  res_genre :: string
  res_features :: features

text \<open>Lines 158--166: the genre and the result dictionary, built from the features.\<close>

definition build_result :: "features \<Rightarrow> py_error + analysis_result" where
  "build_result fs =
     (let genre = predict_genre fs
      in and_then (getitem fs ''key'') (\<lambda>k.
         and_then (getitem fs ''bpm'') (\<lambda>b.
         and_then (py_round2 b) (\<lambda>rounded.
         Inr \<lparr>res_key = k, res_bpm = rounded, res_genre = genre, res_features = fs\<rparr>))))"

definition analyze_song :: "env \<Rightarrow> string \<Rightarrow> py_error + analysis_result option" where
  "analyze_song e audio_path =
     (case extract_features e audio_path of
        None \<Rightarrow> Inr None
      | Some fs \<Rightarrow> and_then (build_result fs) (\<lambda>result. Inr (Some result)))"

section \<open>The specification's words\<close>

text \<open>The five documented genre labels and the ordered rule table of the specification.\<close>

definition genre_labels :: "string list" where
  "genre_labels = [''Electronic/Dance'', ''Pop/Rock'', ''Classical'', ''Jazz'', ''Other'']"

definition spec_rule_table :: "real \<Rightarrow> real \<Rightarrow> real \<Rightarrow> string" where
  "spec_rule_table b c z =
     (if b > 140 \<and> c > 3000 then ''Electronic/Dance''
      else if b > 120 then ''Pop/Rock''
      else if c < 2000 \<and> z < 1 / 10 then ''Classical''
      else if c > 2500 \<and> b < 100 then ''Jazz''
      else ''Other'')"


definition pearson :: "real list \<Rightarrow> real list \<Rightarrow> real" where
  "pearson xs ys = dev_sum xs ys / sqrt (dev_sum xs xs * dev_sum ys ys)"

definition spec_correlation :: "pyfloat list \<Rightarrow> int list \<Rightarrow> pyfloat" where
  "spec_correlation x y =
     (case fin_list x of
        None \<Rightarrow> NaN
      | Some xs \<Rightarrow>
          (let ys = map real_of_int y
           in if dev_sum xs xs = 0 \<or> dev_sum ys ys = 0 then NaN else Fin (pearson xs ys)))"

section \<open>Sample inputs\<close>

text \<open>
  Averaged chroma profiles: one that matches the C major template, and one with all its
  energy on the single pitch class C\#.
\<close>

definition c_major_profile :: "pyfloat list" where
  "c_major_profile = map Fin [1, 0, 1, 0, 1, 1, 0, 1, 0, 1, 0, 1]"


text \<open>Chroma matrices of two frames: a C major chord, a single sustained A, and silence.\<close>

definition c_major_chroma :: "real list list" where
  "c_major_chroma = map (\<lambda>v. [v, v]) [1, 0, 1, 0, 1, 1, 0, 1, 0, 1, 0, 1]"


definition silent_chroma :: "real list list" where
  "silent_chroma = replicate 12 [0, 0]"

text \<open>
  A run in which every collaborator succeeds on the file \<^verbatim>\<open>song.wav\<close>: the two tempo
  detectors answer 130 and 100, the chroma is the C major chord.
\<close>

definition demo_env :: env where
  "demo_env =
     \<lparr>os_path_exists = (\<lambda>p. p = ''song.wav''),
      os_path_getsize = (\<lambda>p. Inr 4096),
      librosa_load = (\<lambda>p. Inr ([0, 1 / 2, 0, - (1 / 2)], 22050)),
      beat_track = (\<lambda>y sr. Inr 130),
      beat_tempo = (\<lambda>y sr. Inr [100]),
      chroma_stft = (\<lambda>y sr. Inr c_major_chroma),
      mfcc = (\<lambda>y sr. Inr (replicate 13 [1, 3])),
      spectral_centroid = (\<lambda>y sr. Inr [[3400, 3600]]),
      zero_crossing_rate = (\<lambda>y. Inr [[1 / 20, 3 / 20]]),
      spectral_rolloff = (\<lambda>y sr. Inr [[5000, 7000]])\<rparr>"

text \<open>Failing runs: the decoder raises; the chroma transform raises (clip too short).\<close>

definition undecodable_env :: env where
  "undecodable_env = demo_env\<lparr>librosa_load := (\<lambda>p. Inl (LibraryError ''NoBackendError''))\<rparr>"

definition short_clip_env :: env where
  "short_clip_env = demo_env\<lparr>chroma_stft := (\<lambda>y sr. Inl (LibraryError ''ParameterError''))\<rparr>"


text \<open>
  A run whose two tempo detectors agree on 7875/64 = 123.046875, and a feature mapping
  that lacks \<^verbatim>\<open>zcr_mean\<close>.
\<close>

definition typical_env :: env where
  "typical_env =
     demo_env\<lparr>beat_track := (\<lambda>y sr. Inr (7875 / 64)), beat_tempo := (\<lambda>y sr. Inr [7875 / 64])\<rparr>"

definition partial_features :: features where
  "partial_features =
     [''bpm'' \<mapsto> VFloat (Fin 128), ''key'' \<mapsto> VStr ''A'',
      ''spectral_centroid_mean'' \<mapsto> VFloat (Fin 1500)]"

text \<open>A fast, bright track, and the same features with a key recorded as well.\<close>

definition dance_features :: features where
  "dance_features =
     [''bpm'' \<mapsto> VFloat (Fin 150), ''spectral_centroid_mean'' \<mapsto> VFloat (Fin 3500),
      ''zcr_mean'' \<mapsto> VFloat (Fin (1 / 20))]"

definition dance_features_keyed :: features where
  "dance_features_keyed = dance_features(''key'' \<mapsto> VStr ''A'')"


section \<open>Properties\<close>

subsection \<open>Sequencing\<close>

lemma and_then_simps [simp]:
  "and_then (Inl err) f = Inl err" "and_then (Inr x) f = f x"
  by (simp_all add: and_then_def)

lemma and_then_Inr_iff: "and_then m f = Inr r \<longleftrightarrow> (\<exists>x. m = Inr x \<and> f x = Inr r)"
  by (cases m) simp_all

lemma first_item_Inr_iff: "first_item a = Inr x \<longleftrightarrow> (\<exists>rest. a = x # rest)"
  by (cases a) (simp_all add: first_item_def)

subsection \<open>Sums of products\<close>

lemma sum_sq_nonneg: "0 \<le> sum_list (map (\<lambda>x::real. x\<^sup>2) xs)"
  by (induction xs) simp_all

lemma cauchy_schwarz_list:
  "length xs = length ys \<Longrightarrow>
   (sum_list (map2 (\<lambda>x y. x * y) xs ys))\<^sup>2
     \<le> sum_list (map (\<lambda>x::real. x\<^sup>2) xs) * sum_list (map (\<lambda>y. y\<^sup>2) ys)"
proof (induction xs ys rule: list_induct2)
  case Nil
  then show ?case by simp
next
  case (Cons a xs b ys)
  define A where "A = sum_list (map (\<lambda>x::real. x\<^sup>2) xs)"
  define B where "B = sum_list (map (\<lambda>x::real. x\<^sup>2) ys)"
  define C where "C = sum_list (map2 (\<lambda>x y. x * y) xs ys)"
  have A: "0 \<le> A" and B: "0 \<le> B" unfolding A_def B_def by (rule sum_sq_nonneg)+
  have IH: "C\<^sup>2 \<le> A * B" using Cons.IH unfolding A_def B_def C_def .
  have abs_C: "\<bar>C\<bar> \<le> sqrt A * sqrt B"
  proof -
    have "\<bar>C\<bar> = sqrt (C\<^sup>2)" by simp
    also have "\<dots> \<le> sqrt (A * B)" using IH by (rule real_sqrt_le_mono)
    finally show ?thesis by (simp add: real_sqrt_mult)
  qed
  have sq: "0 \<le> (\<bar>b\<bar> * sqrt A - \<bar>a\<bar> * sqrt B)\<^sup>2" by simp
  have "2 * (a * b * C) \<le> 2 * (\<bar>a\<bar> * \<bar>b\<bar> * \<bar>C\<bar>)"
    by (metis abs_ge_self abs_mult mult_le_cancel_left_pos zero_less_numeral)
  also have "\<dots> \<le> 2 * (\<bar>a\<bar> * \<bar>b\<bar> * (sqrt A * sqrt B))"
    using abs_C by (simp add: mult_left_mono)
  also have "\<dots> \<le> b\<^sup>2 * A + a\<^sup>2 * B"
  proof -
    have "(\<bar>b\<bar> * sqrt A - \<bar>a\<bar> * sqrt B)\<^sup>2
            = b\<^sup>2 * A + a\<^sup>2 * B - 2 * (\<bar>a\<bar> * \<bar>b\<bar> * (sqrt A * sqrt B))"
      using A B by (simp add: power2_diff power_mult_distrib algebra_simps)
    with sq show ?thesis by linarith
  qed
  finally have cross: "2 * (a * b * C) \<le> b\<^sup>2 * A + a\<^sup>2 * B" .
  have "(a * b + C)\<^sup>2 = a\<^sup>2 * b\<^sup>2 + 2 * (a * b * C) + C\<^sup>2"
    by (simp add: power2_sum power_mult_distrib algebra_simps)
  also have "\<dots> \<le> a\<^sup>2 * b\<^sup>2 + (b\<^sup>2 * A + a\<^sup>2 * B) + A * B"
    using cross IH by linarith
  also have "\<dots> = (a\<^sup>2 + A) * (b\<^sup>2 + B)" by (simp add: algebra_simps)
  finally show ?case by (simp add: A_def B_def C_def)
qed

lemma dev_sum_as_products:
  "length xs = length ys \<Longrightarrow>
   dev_sum xs ys = sum_list (map2 (\<lambda>x y. x * y) (map (\<lambda>x. x - mean xs) xs) (map (\<lambda>y. y - mean ys) ys))"
  unfolding dev_sum_def
  by (simp add: zip_map_map split_def o_def)

lemma dev_sum_self_squares:
  "dev_sum xs xs = sum_list (map (\<lambda>x. x\<^sup>2) (map (\<lambda>x. x - mean xs) xs))"
  unfolding dev_sum_def by (simp add: zip_same_conv_map o_def power2_eq_square)

lemma dev_sum_self_nonneg: "0 \<le> dev_sum xs xs"
  unfolding dev_sum_self_squares by (rule sum_sq_nonneg)

lemma dev_sum_cauchy_schwarz:
  assumes "length xs = length ys"
  shows "(dev_sum xs ys)\<^sup>2 \<le> dev_sum xs xs * dev_sum ys ys"
  using cauchy_schwarz_list [of "map (\<lambda>x. x - mean xs) xs" "map (\<lambda>y. y - mean ys) ys"] assms
  by (simp only: dev_sum_as_products [OF assms] dev_sum_self_squares length_map)

lemma pearson_bounds:
  assumes "length xs = length ys"
  shows "\<bar>pearson xs ys\<bar> \<le> 1"
proof -
  let ?d = "dev_sum xs xs * dev_sum ys ys"
  have nn: "0 \<le> ?d" by (simp add: dev_sum_self_nonneg)
  have "\<bar>dev_sum xs ys\<bar> = sqrt ((dev_sum xs ys)\<^sup>2)" by simp
  also have "\<dots> \<le> sqrt ?d"
    using dev_sum_cauchy_schwarz [OF assms] by (rule real_sqrt_le_mono)
  finally have le: "\<bar>dev_sum xs ys\<bar> \<le> sqrt ?d" .
  show ?thesis
  proof (cases "sqrt ?d = 0")
    case True
    have "pearson xs ys = dev_sum xs ys / 0" unfolding pearson_def True ..
    then show ?thesis by simp
  next
    case False
    with nn have "0 < sqrt ?d" by (simp add: less_le)
    with le show ?thesis by (simp add: pearson_def)
  qed
qed

lemma clip_id: "\<bar>r\<bar> \<le> 1 \<Longrightarrow> clip r = r"
  by (simp add: clip_def)

lemma cov_quotient_pearson:
  assumes "1 < length xs" and that: "length ys' = length xs"
  shows "cov xs ys / sqrt (cov xs xs) / sqrt (cov ys' ys') = 
         dev_sum xs ys / sqrt (dev_sum xs xs * dev_sum ys' ys')" (is "?l = ?r")
proof -
  define n where "n = real (length xs) - 1"
  have n: "0 < n" using assms by (simp add: n_def)
  have s: "sqrt n * sqrt n = n" using n by simp
  have "?l = (dev_sum xs ys / n) / (sqrt (dev_sum xs xs) / sqrt n) / (sqrt (dev_sum ys' ys') / sqrt n)"
    using that by (simp add: cov_def n_def real_sqrt_divide)
  also have "\<dots> = dev_sum xs ys * (sqrt n * sqrt n) / (n * (sqrt (dev_sum xs xs) * sqrt (dev_sum ys' ys')))"
    by (simp add: mult.assoc)
  also have "\<dots> = dev_sum xs ys / (sqrt (dev_sum xs xs) * sqrt (dev_sum ys' ys'))"
    unfolding s using n by simp
  finally show ?thesis by (simp add: real_sqrt_mult)
qed


lemma fin_list_map_Fin [simp]: "fin_list (map Fin xs) = Some xs"
  by (induction xs) simp_all

lemma fin_list_Some_D: "fin_list x = Some xs \<Longrightarrow> x = map Fin xs"
  by (induction x arbitrary: xs rule: fin_list.induct) (auto split: option.splits)

lemma fin_list_Some_iff: "fin_list x = Some xs \<longleftrightarrow> x = map Fin xs"
  by (auto dest: fin_list_Some_D)


lemma cov_self_zero_iff: "1 < length xs \<Longrightarrow> cov xs xs = 0 \<longleftrightarrow> dev_sum xs xs = 0"
  by (simp add: cov_def)

lemma corr_value_spec:
  assumes "length x = length y" and "1 < length x"
  shows "corr_value x y = spec_correlation x y"
proof (cases "fin_list x")
  case None
  then show ?thesis by (simp add: corr_value_def spec_correlation_def)
next
  case (Some xs)
  then have x: "x = map Fin xs" by (simp add: fin_list_Some_iff)
  let ?ys = "map real_of_int y"
  have len: "length ?ys = length xs" "1 < length xs" "1 < length ?ys"
    using assms x by simp_all
  have q: "cov xs ?ys / sqrt (cov xs xs) / sqrt (cov ?ys ?ys) = pearson xs ?ys"
    unfolding pearson_def using len by (intro cov_quotient_pearson) simp_all
  have "clip (pearson xs ?ys) = pearson xs ?ys"
    using len by (intro clip_id pearson_bounds) simp
  with q Some len show ?thesis
    by (simp add: corr_value_def spec_correlation_def cov_self_zero_iff Let_def)
qed

subsection \<open>Cyclic rotation\<close>

lemma length_np_roll [simp]: "length (np_roll a k) = length a"
  by (simp add: np_roll_def Let_def)

lemma set_np_roll [simp]: "set (np_roll a k) = set a"
  by (auto simp: np_roll_def Let_def dest: in_set_dropD in_set_takeD)
     (metis Un_iff append_take_drop_id set_append)

lemma map_np_roll: "map f (np_roll a k) = np_roll (map f a) k"
  by (simp add: np_roll_def Let_def drop_map take_map)

lemma zip_np_roll:
  "length a = length b \<Longrightarrow> zip (np_roll a k) (np_roll b k) = np_roll (zip a b) k"
  by (simp add: np_roll_def Let_def drop_zip take_zip)

lemma sum_list_np_roll: "sum_list (np_roll a k) = sum_list (a :: real list)"
proof -
  have "sum_list (drop m a @ take m a) = sum_list (take m a @ drop m a)" for m
    by (simp only: sum_list_append add.commute)
  then show ?thesis by (simp add: np_roll_def Let_def del: sum_list_append)
qed

lemma mean_np_roll [simp]: "mean (np_roll a k) = mean a"
  by (simp add: mean_def sum_list_np_roll)

lemma dev_sum_np_roll:
  assumes "length a = length b"
  shows "dev_sum (np_roll a k) (np_roll b k) = dev_sum a b"
  unfolding dev_sum_def
  by (simp add: zip_np_roll [OF assms] map_np_roll sum_list_np_roll)



subsection \<open>Python's max\<close>

lemma fgt_trans_left:
  "fgt r (Fin b) \<Longrightarrow> \<not> fgt (Fin k) (Fin b) \<Longrightarrow> fgt r (Fin k)"
  by (cases r) auto

lemma fgt_trans: "fgt a b \<Longrightarrow> fgt b c \<Longrightarrow> fgt a c"
  by (cases a; cases b; cases c) auto

lemma fgt_irrefl [simp]: "\<not> fgt a a"
  by (cases a) auto

text \<open>On finite scores the loop returns the first entry that no entry exceeds.\<close>

lemma max_loop_split:
  assumes "\<forall>kv \<in> set (best # rest). \<exists>r. snd kv = Fin r"
  shows "\<exists>pre post. best # rest = pre @ max_loop best rest # post \<and>
           (\<forall>kv \<in> set pre. fgt (snd (max_loop best rest)) (snd kv)) \<and>
           (\<forall>kv \<in> set post. \<not> fgt (snd kv) (snd (max_loop best rest)))"
  using assms
proof (induction rest arbitrary: best)
  case Nil
  show ?case by (rule exI [of _ "[]"], rule exI [of _ "[]"]) simp
next
  case (Cons kv rest)
  obtain b where b: "snd best = Fin b" using Cons.prems by auto
  obtain k where k: "snd kv = Fin k" using Cons.prems by auto
  show ?case
  proof (cases "fgt (snd kv) (snd best)")
    case True
    have eq: "max_loop best (kv # rest) = max_loop kv rest" using True by simp
    have "\<forall>x \<in> set (kv # rest). \<exists>r. snd x = Fin r" using Cons.prems by simp
    from Cons.IH [OF this] obtain pre post where
      sp: "kv # rest = pre @ max_loop kv rest # post"
      and pre: "\<forall>x \<in> set pre. fgt (snd (max_loop kv rest)) (snd x)"
      and post: "\<forall>x \<in> set post. \<not> fgt (snd x) (snd (max_loop kv rest))"
      by blast
    have ge: "fgt (snd (max_loop kv rest)) (snd best)"
    proof (cases pre)
      case Nil
      from sp have "kv # rest = max_loop kv rest # post" unfolding Nil append_Nil .
      then have "kv = max_loop kv rest" by (rule list.inject [THEN iffD1, THEN conjunct1])
      with True show ?thesis by simp
    next
      case (Cons p pre')
      from sp have "kv # rest = p # (pre' @ max_loop kv rest # post)" unfolding Cons append_Cons .
      then have "kv = p" by (rule list.inject [THEN iffD1, THEN conjunct1])
      with Cons pre have "fgt (snd (max_loop kv rest)) (snd kv)" by simp
      then show ?thesis using True by (rule fgt_trans)
    qed
    have 1: "best # kv # rest = (best # pre) @ max_loop kv rest # post" using sp by simp
    have 2: "\<forall>x \<in> set (best # pre). fgt (snd (max_loop kv rest)) (snd x)"
      using pre ge by simp
    show ?thesis unfolding eq
      by (rule exI [of _ "best # pre"], rule exI [of _ post]) (intro conjI 1 2 post)
  next
    case False
    have eq: "max_loop best (kv # rest) = max_loop best rest" using False by simp
    have "\<forall>x \<in> set (best # rest). \<exists>r. snd x = Fin r" using Cons.prems by simp
    from Cons.IH [OF this] obtain pre post where
      sp: "best # rest = pre @ max_loop best rest # post"
      and pre: "\<forall>x \<in> set pre. fgt (snd (max_loop best rest)) (snd x)"
      and post: "\<forall>x \<in> set post. \<not> fgt (snd x) (snd (max_loop best rest))"
      by blast
    show ?thesis
    proof (cases pre)
      case Nil
      from sp have "best # rest = max_loop best rest # post" unfolding Nil append_Nil .
      then have m: "best = max_loop best rest" and r: "rest = post"
        by (rule list.inject [THEN iffD1, THEN conjunct1], rule list.inject [THEN iffD1, THEN conjunct2])
      have 1: "best # kv # rest = [] @ max_loop best rest # (kv # post)"
        using r m by simp
      have 2: "\<forall>x \<in> set []. fgt (snd (max_loop best rest)) (snd x)" by simp
      have 3: "\<forall>x \<in> set (kv # post). \<not> fgt (snd x) (snd (max_loop best rest))"
        using post False m by simp
      show ?thesis unfolding eq
        by (rule exI [of _ "[]"], rule exI [of _ "kv # post"]) (intro conjI 1 2 3)
    next
      case (Cons p pre')
      from sp have "best # rest = p # (pre' @ max_loop best rest # post)" unfolding Cons append_Cons .
      then have p: "best = p" and r: "rest = pre' @ max_loop best rest # post"
        by (rule list.inject [THEN iffD1, THEN conjunct1], rule list.inject [THEN iffD1, THEN conjunct2])
      have gb: "fgt (snd (max_loop best rest)) (snd best)" using pre Cons p by simp
      then have gk: "fgt (snd (max_loop best rest)) (snd kv)"
        using False unfolding b k by (rule fgt_trans_left)
      have 1: "best # kv # rest = (best # kv # pre') @ max_loop best rest # post"
        using r by simp
      have 2: "\<forall>x \<in> set (best # kv # pre'). fgt (snd (max_loop best rest)) (snd x)"
        using pre Cons gb gk by simp
      show ?thesis unfolding eq
        by (rule exI [of _ "best # kv # pre'"], rule exI [of _ post]) (intro conjI 1 2 post)
    qed
  qed
qed

text \<open>When the first score is NaN no comparison succeeds and the first entry stays.\<close>

lemma max_loop_first_nan:
  "snd best = NaN \<Longrightarrow> max_loop best rest = best"
  by (induction rest) simp_all

subsection \<open>The twelve templates\<close>

lemma all_less_12:
  "(\<forall>j<12. P j) \<longleftrightarrow>
   P (0::nat) \<and> P 1 \<and> P 2 \<and> P 3 \<and> P 4 \<and> P 5 \<and> P 6 \<and> P 7 \<and> P 8 \<and> P 9 \<and> P 10 \<and> P 11"
proof -
  have "(\<forall>j<12. P j) \<longleftrightarrow> (\<forall>j \<in> set [0..<12]. P j)" by auto
  also have "\<dots> \<longleftrightarrow> P 0 \<and> P 1 \<and> P 2 \<and> P 3 \<and> P 4 \<and> P 5 \<and> P 6 \<and> P 7 \<and> P 8 \<and> P 9 \<and> P 10 \<and> P 11"
    by (simp add: upt_rec eval_nat_numeral)
  finally show ?thesis .
qed

lemma key_profiles_eval:
  "key_profiles =
     [(''C'', [1, 0, 1, 0, 1, 1, 0, 1, 0, 1, 0, 1]),
      (''C#'', [1, 1, 0, 1, 0, 1, 1, 0, 1, 0, 1, 0]),
      (''D'', [0, 1, 1, 0, 1, 0, 1, 1, 0, 1, 0, 1]),
      (''D#'', [1, 0, 1, 1, 0, 1, 0, 1, 1, 0, 1, 0]),
      (''E'', [0, 1, 0, 1, 1, 0, 1, 0, 1, 1, 0, 1]),
      (''F'', [1, 0, 1, 0, 1, 1, 0, 1, 0, 1, 1, 0]),
      (''F#'', [0, 1, 0, 1, 0, 1, 1, 0, 1, 0, 1, 1]),
      (''G'', [1, 0, 1, 0, 1, 0, 1, 1, 0, 1, 0, 1]),
      (''G#'', [1, 1, 0, 1, 0, 1, 0, 1, 1, 0, 1, 0]),
      (''A'', [0, 1, 1, 0, 1, 0, 1, 0, 1, 1, 0, 1]),
      (''A#'', [1, 0, 1, 1, 0, 1, 0, 1, 0, 1, 1, 0]),
      (''B'', [0, 1, 0, 1, 1, 0, 1, 0, 1, 0, 1, 1])]"
  by (simp add: key_profiles_def key_names_def base_profile_def np_roll_def enumerate_eq_zip upt_rec)

lemma length_key_names [simp]: "length key_names = 12"
  by (simp add: key_names_def)

lemma length_base_profile [simp]: "length base_profile = 12"
  by (simp add: base_profile_def)

lemma length_key_profiles [simp]: "length key_profiles = 12"
  by (simp add: key_profiles_def)

lemma key_profiles_nth:
  "j < 12 \<Longrightarrow> key_profiles ! j = (key_names ! j, np_roll base_profile j)"
  by (simp add: key_profiles_def nth_enumerate_eq)



lemma dev_sum_base_profile:
  "dev_sum (map real_of_int base_profile) (map real_of_int base_profile) = 35 / 12"
  by (simp add: dev_sum_def mean_def base_profile_def)

lemma dev_sum_template:
  "dev_sum (map real_of_int (np_roll base_profile j)) (map real_of_int (np_roll base_profile j)) = 35 / 12"
  by (simp only: map_np_roll dev_sum_np_roll dev_sum_base_profile)

subsection \<open>The score table and its maximum\<close>

lemma key_scores_map:
  "\<forall>kp \<in> set ps. length (snd kp) = length x \<Longrightarrow>
   key_scores x ps = Inr (map (\<lambda>kp. (fst kp, corr_value x (snd kp))) ps)"
  by (induction ps) (auto simp: np_corrcoef_def)

lemma key_scores_mismatch:
  "ps \<noteq> [] \<Longrightarrow> \<forall>kp \<in> set ps. length (snd kp) \<noteq> length x \<Longrightarrow>
   key_scores x ps = Inl ValueError"
  by (cases ps) (auto simp: np_corrcoef_def)

lemma key_profiles_lengths: "\<forall>kp \<in> set key_profiles. length (snd kp) = 12"
  by (auto simp: key_profiles_def in_set_enumerate_eq)

lemma key_scores_eq:
  assumes "length x = 12"
  shows "key_scores x key_profiles = Inr (map (\<lambda>j. (key_names ! j, key_score x j)) [0..<12])"
proof -
  have "key_scores x key_profiles = Inr (map (\<lambda>kp. (fst kp, corr_value x (snd kp))) key_profiles)"
    using key_profiles_lengths assms by (intro key_scores_map) simp
  also have "map (\<lambda>kp. (fst kp, corr_value x (snd kp))) key_profiles
             = map (\<lambda>j. (key_names ! j, key_score x j)) [0..<12]"
    by (rule nth_equalityI) (simp_all add: key_profiles_nth key_score_def)
  finally show ?thesis .
qed

lemma key_scores_wrong_length:
  assumes "length x \<noteq> 12"
  shows "key_scores x key_profiles = Inl ValueError"
proof -
  have "key_profiles \<noteq> []" using length_key_profiles by fastforce
  then show ?thesis using key_profiles_lengths assms
    by (intro key_scores_mismatch) auto
qed

lemma py_max_key_index:
  assumes ne: "ss \<noteq> []"
    and fin: "(\<forall>kv \<in> set ss. \<exists>r. snd kv = Fin r) \<or> (\<forall>kv \<in> set ss. snd kv = NaN)"
  shows "\<exists>i<length ss. py_max_key ss = Inr (fst (ss ! i)) \<and>
           (\<forall>j<length ss. \<not> fgt (snd (ss ! j)) (snd (ss ! i))) \<and>
           (\<forall>j<i. fgt (snd (ss ! i)) (snd (ss ! j)))"
proof -
  from ne obtain best rest where ss: "ss = best # rest" by (cases ss) auto
  have mk: "py_max_key ss = Inr (fst (max_loop best rest))" by (simp add: ss py_max_key_def)
  from fin show ?thesis
  proof
    assume "\<forall>kv \<in> set ss. \<exists>r. snd kv = Fin r"
    then have "\<forall>kv \<in> set (best # rest). \<exists>r. snd kv = Fin r" by (simp only: ss)
    from max_loop_split [OF this] obtain pre post where
      sp: "ss = pre @ max_loop best rest # post"
      and pre: "\<forall>kv \<in> set pre. fgt (snd (max_loop best rest)) (snd kv)"
      and post: "\<forall>kv \<in> set post. \<not> fgt (snd kv) (snd (max_loop best rest))"
      unfolding ss by blast
    let ?i = "length pre"
    have i: "?i < length ss" and at: "ss ! ?i = max_loop best rest"
      by (subst sp, simp)+
    have below: "fgt (snd (ss ! ?i)) (snd (ss ! j))" if "j < ?i" for j
    proof -
      have "ss ! j = pre ! j" using that by (subst sp) (simp add: nth_append)
      then have "ss ! j \<in> set pre" using that by simp
      with pre at show ?thesis by simp
    qed
    have above: "\<not> fgt (snd (ss ! j)) (snd (ss ! ?i))" if "j < length ss" for j
    proof -
      consider "j < ?i" | "j = ?i" | "?i < j" by linarith
      then show ?thesis
      proof cases
        case 1
        from below [OF 1] show ?thesis
          by (cases "snd (ss ! j)"; cases "snd (ss ! ?i)") auto
      next
        case 2
        then show ?thesis by simp
      next
        case 3
        have "length ss = ?i + Suc (length post)" by (subst sp) simp
        with that 3 have "j - Suc ?i < length post" by linarith
        moreover have "ss ! j = post ! (j - Suc ?i)"
          using 3 by (subst sp) (simp add: nth_append)
        ultimately have "ss ! j \<in> set post" by simp
        with post at show ?thesis by simp
      qed
    qed
    show ?thesis
      by (rule exI [of _ ?i]) (use i at mk below above in simp)
  next
    assume nan: "\<forall>kv \<in> set ss. snd kv = NaN"
    then have "snd best = NaN" by (simp add: ss)
    then have m: "max_loop best rest = best" by (rule max_loop_first_nan)
    have 1: "py_max_key ss = Inr (fst (ss ! 0))" unfolding mk m by (simp add: ss)
    have 2: "\<forall>j<length ss. \<not> fgt (snd (ss ! j)) (snd (ss ! 0))"
      using nan by (simp add: ss)
    have 3: "0 < length ss" by (simp add: ss)
    show ?thesis
      by (rule exI [of _ 0]) (use 1 2 3 in simp)
  qed
qed

lemma key_score_spec:
  "length x = 12 \<Longrightarrow> key_score x j = spec_correlation x (np_roll base_profile j)"
  unfolding key_score_def by (rule corr_value_spec) simp_all

lemma key_score_nan:
  assumes "length x = 12" and "fin_list x = None \<or> (\<exists>xs. fin_list x = Some xs \<and> dev_sum xs xs = 0)"
  shows "key_score x j = NaN"
  using assms by (auto simp: key_score_spec spec_correlation_def)

lemma key_score_fin:
  assumes "length x = 12" and "fin_list x = Some xs" and "dev_sum xs xs \<noteq> 0"
  shows "key_score x j = Fin (pearson xs (map real_of_int (np_roll base_profile j)))"
  using assms by (simp add: key_score_spec spec_correlation_def dev_sum_template)

lemma key_scores_uniform:
  assumes "length x = 12"
  shows "(\<forall>j. \<exists>r. key_score x j = Fin r) \<or> (\<forall>j. key_score x j = NaN)"
proof (cases "fin_list x = None \<or> (\<exists>xs. fin_list x = Some xs \<and> dev_sum xs xs = 0)")
  case True
  then show ?thesis using key_score_nan [OF assms] by blast
next
  case False
  then obtain xs where "fin_list x = Some xs" "dev_sum xs xs \<noteq> 0" by auto
  then show ?thesis using key_score_fin [OF assms] by blast
qed

lemma best_key_index:
  assumes "length x = 12"
  shows "\<exists>i<12. best_key x = Inr (key_names ! i) \<and>
           (\<forall>j<12. \<not> fgt (key_score x j) (key_score x i)) \<and>
           (\<forall>j<i. fgt (key_score x i) (key_score x j))"
proof -
  let ?ss = "map (\<lambda>j. (key_names ! j, key_score x j)) [0..<12]"
  have ne: "?ss \<noteq> []" by (simp add: upt_rec)
  have "(\<forall>kv \<in> set ?ss. \<exists>r. snd kv = Fin r) \<or> (\<forall>kv \<in> set ?ss. snd kv = NaN)"
    using key_scores_uniform [OF assms] by auto
  from py_max_key_index [OF ne this] obtain i where
    i: "i < length ?ss" and m: "py_max_key ?ss = Inr (fst (?ss ! i))"
    and a: "\<forall>j<length ?ss. \<not> fgt (snd (?ss ! j)) (snd (?ss ! i))"
    and b: "\<forall>j<i. fgt (snd (?ss ! i)) (snd (?ss ! j))"
    by blast
  have i12: "i < 12" using i by simp
  have 1: "best_key x = Inr (key_names ! i)"
    using m i12 by (simp add: best_key_def key_scores_eq [OF assms] del: upt.simps)
  have 2: "\<forall>j<12. \<not> fgt (key_score x j) (key_score x i)"
    using a i12 by (simp del: upt.simps)
  have 3: "\<forall>j<i. fgt (key_score x i) (key_score x j)"
    using b i12 by (simp del: upt.simps)
  show ?thesis by (rule exI [of _ i]) (use i12 1 2 3 in blast)
qed

lemma best_key_unique:
  assumes len: "length x = 12" and i: "i < 12"
    and top: "\<forall>j<12. \<not> fgt (key_score x j) (key_score x i)"
    and first: "\<forall>j<i. fgt (key_score x i) (key_score x j)"
  shows "best_key x = Inr (key_names ! i)"
proof -
  from best_key_index [OF len] obtain i' where
    i': "i' < 12" and r: "best_key x = Inr (key_names ! i')"
    and top': "\<forall>j<12. \<not> fgt (key_score x j) (key_score x i')"
    and first': "\<forall>j<i'. fgt (key_score x i') (key_score x j)"
    by blast
  have "\<not> i < i'" using first' top i' by blast
  moreover have "\<not> i' < i" using first top' i by blast
  ultimately have "i' = i" by linarith
  with r show ?thesis by simp
qed

lemma distinct_key_names: "distinct key_names"
  by (simp add: key_names_def)

lemma detect_key_wrong_rows: "length chroma \<noteq> 12 \<Longrightarrow> detect_key chroma = Inl ValueError"
  by (simp add: detect_key_def best_key_def key_scores_wrong_length)

text \<open>Templates have one common spread, so scores compare like the cross sums.\<close>

lemma key_score_compare:
  assumes "length x = 12" and "fin_list x = Some xs" and "dev_sum xs xs \<noteq> 0"
  shows "fgt (key_score x j) (key_score x i) \<longleftrightarrow>
         dev_sum xs (map real_of_int (np_roll base_profile j))
           > dev_sum xs (map real_of_int (np_roll base_profile i))"
proof -
  have pos: "0 < dev_sum xs xs" using dev_sum_self_nonneg [of xs] assms(3) by linarith
  then show ?thesis
    by (simp add: key_score_fin [OF assms] pearson_def dev_sum_template divide_less_cancel)
qed

subsection \<open>Shifting the profile\<close>


lemma fgt_asym: "fgt a b \<Longrightarrow> \<not> fgt b a"
  by (cases a; cases b) auto

lemma strict_winner_selected:
  assumes len: "length x = 12" and i: "i < 12"
    and win: "\<forall>j<12. j \<noteq> i \<longrightarrow> fgt (key_score x i) (key_score x j)"
  shows "best_key x = Inr (key_names ! i)"
proof (rule best_key_unique [OF len i])
  show "\<forall>j<12. \<not> fgt (key_score x j) (key_score x i)"
    using win by (metis fgt_asym fgt_irrefl)
  show "\<forall>j<i. fgt (key_score x i) (key_score x j)"
    using win i by auto
qed


lemma c_major_compare:
  "fgt (key_score c_major_profile j) (key_score c_major_profile i) \<longleftrightarrow>
   dev_sum [1, 0, 1, 0, 1, 1, 0, 1, 0, 1, 0, 1] (map real_of_int (np_roll base_profile j))
     > dev_sum [1, 0, 1, 0, 1, 1, 0, 1, 0, 1, 0, 1] (map real_of_int (np_roll base_profile i))"
  by (rule key_score_compare) (simp_all add: c_major_profile_def dev_sum_def mean_def)

lemma c_major_wins:
  "\<forall>j<12. j \<noteq> 0 \<longrightarrow> fgt (key_score c_major_profile 0) (key_score c_major_profile j)"
  unfolding all_less_12 c_major_compare
  by (simp add: np_roll_def base_profile_def dev_sum_def mean_def)








subsection \<open>Key detection on the sample chroma matrices\<close>

lemma c_major_chroma_mean: "map np_mean c_major_chroma = c_major_profile"
  by (simp add: c_major_chroma_def c_major_profile_def np_mean_def mean_def)

lemma detect_key_c_major: "detect_key c_major_chroma = Inr ''C''"
proof -
  have "best_key c_major_profile = Inr (key_names ! 0)"
    using c_major_wins by (intro strict_winner_selected) (simp_all add: c_major_profile_def)
  then show ?thesis by (simp add: detect_key_def c_major_chroma_mean key_names_def)
qed





lemma detect_key_silent: "detect_key silent_chroma = Inr ''C''"
proof -
  have m: "map np_mean silent_chroma = map Fin (replicate 12 0)"
    by (simp add: silent_chroma_def np_mean_def mean_def)
  have "key_score (map np_mean silent_chroma) j = NaN" for j
    unfolding m by (rule key_score_nan) (simp_all add: dev_sum_def mean_def numeral_eq_Suc)
  then have "best_key (map np_mean silent_chroma) = Inr (key_names ! 0)"
    by (intro best_key_unique) (simp_all add: silent_chroma_def)
  then show ?thesis by (simp add: detect_key_def key_names_def)
qed





subsection \<open>Feature extraction\<close>

lemma extract_features_body_Some:
  assumes "extract_features_body e p = Inr (Some fs)"
  shows "\<exists>size y sr tempo tempo_alt rest chroma best m sc z ro.
           os_path_exists e p \<and> os_path_getsize e p = Inr size \<and>
           librosa_load e p = Inr (y, sr) \<and> sr \<noteq> 0 \<and>
           beat_track e y sr = Inr tempo \<and> beat_tempo e y sr = Inr (tempo_alt # rest) \<and>
           chroma_stft e y sr = Inr chroma \<and> detect_key chroma = Inr best \<and>
           mfcc e y sr = Inr m \<and> spectral_centroid e y sr = Inr sc \<and>
           zero_crossing_rate e y = Inr z \<and> spectral_rolloff e y sr = Inr ro \<and>
           fs = make_features (reconcile_tempo tempo tempo_alt) best m sc z ro"
  using assms
  unfolding extract_features_body_def
  by (auto simp: and_then_Inr_iff first_item_Inr_iff split: if_splits prod.splits)

lemma extract_features_Some:
  "extract_features e p = Some fs \<longleftrightarrow> extract_features_body e p = Inr (Some fs)"
  by (auto simp: extract_features_def split: sum.splits)


lemma make_features_simps:
  "make_features b k m sc z ro ''bpm'' = Some (VFloat (Fin b))"
  "make_features b k m sc z ro ''key'' = Some (VStr k)"
  "make_features b k m sc z ro ''spectral_centroid_mean'' = Some (VFloat (np_mean (concat sc)))"
  "make_features b k m sc z ro ''zcr_mean'' = Some (VFloat (np_mean (concat z)))"
  by (simp_all add: make_features_def)



subsection \<open>Genre prediction\<close>

lemma genre_rules_float:
  "genre_rules (VFloat (Fin b)) (VFloat (Fin c)) (VFloat (Fin z)) = Inr (spec_rule_table b c z)"
  by (simp add: genre_rules_def spec_rule_table_def py_and_def)


lemma genre_rules_total: "\<exists>g. genre_rules (VFloat b) (VFloat c) (VFloat z) = Inr g"
  by (simp add: genre_rules_def py_and_def)

lemma predict_genre_float:
  assumes "fs ''bpm'' = Some (VFloat b)" and "fs ''spectral_centroid_mean'' = Some (VFloat c)"
    and "fs ''zcr_mean'' = Some (VFloat z)"
  shows "genre_rules (VFloat b) (VFloat c) (VFloat z) = Inr (predict_genre fs)"
  using assms genre_rules_total [of b c z]
  by (auto simp: predict_genre_def predict_genre_body_def getitem_def)

lemma predict_genre_missing:
  assumes "fs ''bpm'' = None \<or> fs ''spectral_centroid_mean'' = None \<or> fs ''zcr_mean'' = None"
  shows "predict_genre fs = ''Unknown''"
  using assms
  by (auto simp: predict_genre_def predict_genre_body_def getitem_def and_then_def
      split: option.splits sum.splits)

lemma predict_genre_agree:
  assumes "fs ''bpm'' = gs ''bpm''"
    and "fs ''spectral_centroid_mean'' = gs ''spectral_centroid_mean''"
    and "fs ''zcr_mean'' = gs ''zcr_mean''"
  shows "predict_genre fs = predict_genre gs"
  using assms by (simp add: predict_genre_def predict_genre_body_def getitem_def)

subsection \<open>Rounding\<close>

lemma round_half_even_near: "\<bar>of_int (round_half_even x) - x\<bar> \<le> 1 / 2"
  unfolding round_half_even_def Let_def by (auto simp: abs_le_iff)


subsection \<open>Assembling the result\<close>

lemma build_result_make_features:
  "build_result (make_features b k m sc z ro) =
     Inr \<lparr>res_key = VStr k,
          res_bpm = VFloat (Fin (of_int (round_half_even (b * 100)) / 100)),
          res_genre = predict_genre (make_features b k m sc z ro),
          res_features = make_features b k m sc z ro\<rparr>"
  by (simp add: build_result_def getitem_def make_features_simps)


lemma analyze_song_None_iff:
  "analyze_song e p = Inr None \<longleftrightarrow> extract_features e p = None"
proof (cases "extract_features e p")
  case None
  then show ?thesis by (simp add: analyze_song_def)
next
  case (Some fs)
  then obtain b k m sc z ro where "fs = make_features b k m sc z ro"
    using extract_features_body_Some [of e p fs] by (auto simp: extract_features_Some)
  with Some show ?thesis by (simp add: analyze_song_def build_result_make_features)
qed

lemma analyze_song_Some:
  assumes "extract_features e p = Some fs"
  shows "\<exists>r. analyze_song e p = Inr (Some r) \<and> build_result fs = Inr r"
proof -
  from assms obtain b k m sc z ro where "fs = make_features b k m sc z ro"
    using extract_features_body_Some [of e p fs] by (auto simp: extract_features_Some)
  with assms show ?thesis by (simp add: analyze_song_def build_result_make_features)
qed

lemma analyze_song_Some_D:
  assumes "analyze_song e p = Inr (Some r)"
  shows "\<exists>fs. extract_features e p = Some fs \<and> build_result fs = Inr r"
proof (cases "extract_features e p")
  case None
  with assms show ?thesis by (simp add: analyze_song_def)
next
  case (Some fs)
  from analyze_song_Some [OF Some] assms Some show ?thesis by auto
qed


subsection \<open>The sample runs\<close>

lemma extract_features_demo:
  "extract_features demo_env ''song.wav'' =
     Some (make_features 115 ''C'' (replicate 13 [1, 3]) [[3400, 3600]] [[1 / 20, 3 / 20]] [[5000, 7000]])"
  by (simp add: extract_features_def extract_features_body_def demo_env_def detect_key_c_major
      reconcile_tempo_def first_item_def)

lemma extract_features_typical:
  "extract_features typical_env ''song.wav'' =
     Some (make_features (7875 / 64) ''C'' (replicate 13 [1, 3]) [[3400, 3600]] [[1 / 20, 3 / 20]] [[5000, 7000]])"
  by (simp add: extract_features_def extract_features_body_def typical_env_def demo_env_def
      detect_key_c_major reconcile_tempo_def first_item_def)


lemma body_undecodable:
  "extract_features_body undecodable_env ''song.wav'' = Inl (LibraryError ''NoBackendError'')"
  by (simp add: extract_features_body_def undecodable_env_def demo_env_def)

lemma body_short_clip:
  "extract_features_body short_clip_env ''song.wav'' = Inl (LibraryError ''ParameterError'')"
  by (simp add: extract_features_body_def short_clip_env_def demo_env_def first_item_def)

lemma round_half_even_examples:
  "round_half_even (7875 / 64 * 100) = 12305" "round_half_even (115 * 100) = 11500"
  "round_half_even (0 * 100) = 0"
  by (simp_all add: round_half_even_def Let_def)

subsection \<open>Failing stages\<close>

lemma stage_failure:
  assumes "\<not> os_path_exists e p \<or> os_path_getsize e p = Inl err \<or> librosa_load e p = Inl err \<or>
           (\<exists>y sr. librosa_load e p = Inr (y, sr) \<and>
              (sr = 0 \<or> beat_track e y sr = Inl err \<or> beat_tempo e y sr = Inl err \<or>
               beat_tempo e y sr = Inr [] \<or> chroma_stft e y sr = Inl err \<or>
               (\<exists>c. chroma_stft e y sr = Inr c \<and> length c \<noteq> 12) \<or>
               mfcc e y sr = Inl err \<or> spectral_centroid e y sr = Inl err \<or>
               zero_crossing_rate e y = Inl err \<or> spectral_rolloff e y sr = Inl err))"
  shows "extract_features e p = None"
proof (cases "extract_features e p")
  case None
  then show ?thesis .
next
  case (Some fs)
  then have "extract_features_body e p = Inr (Some fs)" by (simp add: extract_features_Some)
  from extract_features_body_Some [OF this] obtain size y sr tempo tempo_alt rest chroma best m sc z ro
    where ok: "os_path_exists e p" "os_path_getsize e p = Inr size"
      "librosa_load e p = Inr (y, sr)" "sr \<noteq> 0"
      "beat_track e y sr = Inr tempo" "beat_tempo e y sr = Inr (tempo_alt # rest)"
      "chroma_stft e y sr = Inr chroma" "detect_key chroma = Inr best"
      "mfcc e y sr = Inr m" "spectral_centroid e y sr = Inr sc"
      "zero_crossing_rate e y = Inr z" "spectral_rolloff e y sr = Inr ro"
    by blast
  have "length chroma = 12" using ok(8) detect_key_wrong_rows [of chroma] by auto
  with assms ok have False by auto
  then show ?thesis ..
qed

subsection \<open>Tempo, genre and the assembled result\<close>

text \<open>
  C1. The bpm that feature extraction reports is the mean of the primary and the alternate
  tempo estimate when they differ by more than 20, and the primary estimate otherwise;
  130 and 100 give 115, 128 and 132 give 128.
\<close>

theorem tempo_reconciliation:
  "(extract_features e p = Some fs \<and> librosa_load e p = Inr (y, sr) \<and>
    beat_track e y sr = Inr primary \<and> beat_tempo e y sr = Inr (alternate # rest) \<longrightarrow>
      fs ''bpm'' = Some (VFloat (Fin (if \<bar>primary - alternate\<bar> > 20
                                      then (primary + alternate) / 2 else primary)))) \<and>
   reconcile_tempo 130 100 = 115 \<and> reconcile_tempo 128 132 = 128"
proof (intro conjI impI)
  assume a: "extract_features e p = Some fs \<and> librosa_load e p = Inr (y, sr) \<and>
    beat_track e y sr = Inr primary \<and> beat_tempo e y sr = Inr (alternate # rest)"
  then have "extract_features_body e p = Inr (Some fs)" by (simp add: extract_features_Some)
  from extract_features_body_Some [OF this] obtain y' sr' tempo tempo_alt rest' best m sc z ro
    where ok: "librosa_load e p = Inr (y', sr')" "beat_track e y' sr' = Inr tempo"
      "beat_tempo e y' sr' = Inr (tempo_alt # rest')"
      "fs = make_features (reconcile_tempo tempo tempo_alt) best m sc z ro"
    by blast
  from a ok(1) have "y' = y" "sr' = sr" by simp_all
  with a ok(2,3) have "tempo = primary" "tempo_alt = alternate" by simp_all
  then show "fs ''bpm'' = Some (VFloat (Fin (if \<bar>primary - alternate\<bar> > 20
                                      then (primary + alternate) / 2 else primary)))"
    unfolding ok(4) by (simp add: make_features_simps reconcile_tempo_def)
qed (simp_all add: reconcile_tempo_def)

theorem tempo_reconciliation_witness:
  "\<exists>fs. extract_features demo_env ''song.wav'' = Some fs \<and>
         beat_track demo_env [0, 1 / 2, 0, - (1 / 2)] 22050 = Inr 130 \<and>
         beat_tempo demo_env [0, 1 / 2, 0, - (1 / 2)] 22050 = Inr [100] \<and>
         fs ''bpm'' = Some (VFloat (Fin 115))"
  using tempo_reconciliation [of demo_env "''song.wav''" _ "[0, 1 / 2, 0, - (1 / 2)]" 22050 130 100 "[]"]
    extract_features_demo
  by (simp add: demo_env_def)

text \<open>
  C2. The genre is a function of the three features bpm, spectral centroid mean and
  zero-crossing-rate mean alone, and on numeric values it is the ordered rule table; bpm
  150 with centroid 3500 is Electronic/Dance, and bpm exactly 120 is never Pop/Rock.
\<close>

theorem genre_rule_table:
  "(fs ''bpm'' = Some (VFloat (Fin b)) \<and> fs ''spectral_centroid_mean'' = Some (VFloat (Fin c)) \<and>
    fs ''zcr_mean'' = Some (VFloat (Fin z)) \<longrightarrow> predict_genre fs = spec_rule_table b c z) \<and>
   (fs ''bpm'' = gs ''bpm'' \<and> fs ''spectral_centroid_mean'' = gs ''spectral_centroid_mean'' \<and>
    fs ''zcr_mean'' = gs ''zcr_mean'' \<longrightarrow> predict_genre fs = predict_genre gs) \<and>
   predict_genre [''bpm'' \<mapsto> VFloat (Fin 150), ''spectral_centroid_mean'' \<mapsto> VFloat (Fin 3500),
                  ''zcr_mean'' \<mapsto> VFloat (Fin z')] = ''Electronic/Dance'' \<and>
   predict_genre [''bpm'' \<mapsto> VFloat (Fin 120), ''spectral_centroid_mean'' \<mapsto> VFloat (Fin c'),
                  ''zcr_mean'' \<mapsto> VFloat (Fin z'')] \<noteq> ''Pop/Rock''"
proof -
  have table: "predict_genre hs = spec_rule_table b0 c0 z0"
    if "hs ''bpm'' = Some (VFloat (Fin b0))" "hs ''spectral_centroid_mean'' = Some (VFloat (Fin c0))"
      "hs ''zcr_mean'' = Some (VFloat (Fin z0))" for hs b0 c0 z0
    using predict_genre_float [OF that] by (simp add: genre_rules_float)
  have 1: "predict_genre [''bpm'' \<mapsto> VFloat (Fin 150), ''spectral_centroid_mean'' \<mapsto> VFloat (Fin 3500),
                  ''zcr_mean'' \<mapsto> VFloat (Fin z')] = spec_rule_table 150 3500 z'"
    by (rule table) simp_all
  have 2: "predict_genre [''bpm'' \<mapsto> VFloat (Fin 120), ''spectral_centroid_mean'' \<mapsto> VFloat (Fin c'),
                  ''zcr_mean'' \<mapsto> VFloat (Fin z'')] = spec_rule_table 120 c' z''"
    by (rule table) simp_all
  show ?thesis
    unfolding 1 2 using table [of fs b c z] predict_genre_agree [of fs gs]
    by (simp add: spec_rule_table_def)
qed

theorem genre_rule_table_witness:
  "dance_features ''bpm'' = Some (VFloat (Fin 150)) \<and>
   dance_features ''spectral_centroid_mean'' = Some (VFloat (Fin 3500)) \<and>
   predict_genre dance_features = ''Electronic/Dance'' \<and>
   predict_genre dance_features_keyed = predict_genre dance_features"
proof -
  note t = genre_rule_table [of dance_features 150 3500 "1 / 20" dance_features_keyed 0 0 0]
  have a: "dance_features ''bpm'' = Some (VFloat (Fin 150))"
    "dance_features ''spectral_centroid_mean'' = Some (VFloat (Fin 3500))"
    "dance_features ''zcr_mean'' = Some (VFloat (Fin (1 / 20)))"
    by (simp_all add: dance_features_def)
  have b: "dance_features ''bpm'' = dance_features_keyed ''bpm''"
    "dance_features ''spectral_centroid_mean'' = dance_features_keyed ''spectral_centroid_mean''"
    "dance_features ''zcr_mean'' = dance_features_keyed ''zcr_mean''"
    by (simp_all add: dance_features_keyed_def)
  from t a have "predict_genre dance_features = spec_rule_table 150 3500 (1 / 20)" by blast
  then have 1: "predict_genre dance_features = ''Electronic/Dance''"
    by (simp add: spec_rule_table_def)
  from t b have 2: "predict_genre dance_features = predict_genre dance_features_keyed" by blast
  from a 1 2 show ?thesis by simp
qed

text \<open>
  C10. On a feature mapping that lacks bpm, spectral centroid mean or zero-crossing-rate
  mean the genre prediction does not raise: it answers Unknown, which is none of the five
  documented labels, and a result built from such features carries that label.
\<close>

theorem missing_field_unknown:
  assumes "fs ''bpm'' = None \<or> fs ''spectral_centroid_mean'' = None \<or> fs ''zcr_mean'' = None"
  shows "predict_genre fs = ''Unknown'' \<and> ''Unknown'' \<notin> set genre_labels \<and>
         (\<forall>r. build_result fs = Inr r \<longrightarrow> res_genre r = ''Unknown'')"
proof -
  have u: "predict_genre fs = ''Unknown''" using assms by (rule predict_genre_missing)
  have "res_genre r = ''Unknown''" if "build_result fs = Inr r" for r
    using that unfolding build_result_def Let_def u
    by (auto simp: and_then_Inr_iff)
  with u show ?thesis by (simp add: genre_labels_def)
qed

theorem missing_field_unknown_witness:
  "partial_features ''zcr_mean'' = None \<and> predict_genre partial_features = ''Unknown'' \<and>
   build_result partial_features =
     Inr \<lparr>res_key = VStr ''A'', res_bpm = VFloat (Fin 128), res_genre = ''Unknown'',
          res_features = partial_features\<rparr>"
proof -
  have n: "partial_features ''zcr_mean'' = None" by (simp add: partial_features_def)
  have r: "round_half_even 12800 = 12800" by (simp add: round_half_even_def Let_def)
  from missing_field_unknown [of partial_features] n
  have u: "predict_genre partial_features = ''Unknown''" by simp
  have "build_result partial_features =
     Inr \<lparr>res_key = VStr ''A'', res_bpm = VFloat (Fin 128), res_genre = ''Unknown'',
          res_features = partial_features\<rparr>"
    unfolding build_result_def Let_def u
    by (simp add: getitem_def partial_features_def r)
  with n u show ?thesis by simp
qed



text \<open>
  C8. In a successful analysis the bpm field is the reconciled tempo estimate rounded to
  two decimal places (a whole number of hundredths, at most 0.005 away), the features
  field is the extracted feature dictionary unchanged, and its bpm entry keeps the
  unrounded estimate.
\<close>

theorem display_rounding:
  assumes "analyze_song e p = Inr (Some r)"
  shows "\<exists>fs y sr tempo tempo_alt rest n.
           extract_features e p = Some fs \<and> librosa_load e p = Inr (y, sr) \<and>
           beat_track e y sr = Inr tempo \<and> beat_tempo e y sr = Inr (tempo_alt # rest) \<and>
           res_features r = fs \<and>
           fs ''bpm'' = Some (VFloat (Fin (reconcile_tempo tempo tempo_alt))) \<and>
           res_bpm r = VFloat (Fin (of_int n / 100)) \<and>
           n = round_half_even (reconcile_tempo tempo tempo_alt * 100) \<and>
           \<bar>of_int n / 100 - reconcile_tempo tempo tempo_alt\<bar> \<le> 1 / 200"
proof -
  from analyze_song_Some_D [OF assms] obtain fs where
    fs: "extract_features e p = Some fs" and r: "build_result fs = Inr r" by blast
  from fs have "extract_features_body e p = Inr (Some fs)" by (simp add: extract_features_Some)
  from extract_features_body_Some [OF this] obtain y sr tempo tempo_alt rest best m sc z ro
    where ok: "librosa_load e p = Inr (y, sr)" "beat_track e y sr = Inr tempo"
      "beat_tempo e y sr = Inr (tempo_alt # rest)"
      "fs = make_features (reconcile_tempo tempo tempo_alt) best m sc z ro"
    by blast
  let ?b = "reconcile_tempo tempo tempo_alt"
  let ?n = "round_half_even (?b * 100)"
  have 1: "res_features r = fs" and 2: "res_bpm r = VFloat (Fin (of_int ?n / 100))"
    using r unfolding ok(4) by (auto simp: build_result_make_features)
  have 3: "fs ''bpm'' = Some (VFloat (Fin ?b))" unfolding ok(4) by (rule make_features_simps)
  have 4: "\<bar>of_int ?n / 100 - ?b\<bar> \<le> 1 / 200"
    using round_half_even_near [of "?b * 100"] by (simp add: abs_le_iff field_simps)
  show ?thesis
    using fs ok(1-3) 1 2 3 4 by blast
qed

theorem display_rounding_witness:
  "\<exists>r. analyze_song typical_env ''song.wav'' = Inr (Some r) \<and>
        res_features r ''bpm'' = Some (VFloat (Fin (7875 / 64))) \<and>
        res_bpm r = VFloat (Fin (12305 / 100))"
proof -
  from analyze_song_Some [OF extract_features_typical] obtain r where
    r: "analyze_song typical_env ''song.wav'' = Inr (Some r)" by blast
  from display_rounding [OF r] obtain y sr tempo tempo_alt rest n where
    w: "librosa_load typical_env ''song.wav'' = Inr (y, sr)"
      "beat_track typical_env y sr = Inr tempo" "beat_tempo typical_env y sr = Inr (tempo_alt # rest)"
      "res_features r ''bpm'' = Some (VFloat (Fin (reconcile_tempo tempo tempo_alt)))"
      "res_bpm r = VFloat (Fin (of_int n / 100))"
      "n = round_half_even (reconcile_tempo tempo tempo_alt * 100)"
    by blast
  from w(2,3) have t: "tempo = 7875 / 64" "tempo_alt = 7875 / 64"
    by (simp_all add: typical_env_def demo_env_def)
  have b: "reconcile_tempo tempo tempo_alt = 7875 / 64" unfolding t by (simp add: reconcile_tempo_def)
  have "n = 12305" unfolding w(6) b by (rule round_half_even_examples)
  with r w(4,5) b show ?thesis by simp
qed




subsection \<open>Failure outcomes\<close>

lemma analyze_song_failed_runs:
  "analyze_song demo_env ''missing.wav'' = Inr None"
  "analyze_song undecodable_env ''song.wav'' = Inr None"
  "analyze_song short_clip_env ''song.wav'' = Inr None"
  by (simp_all add: analyze_song_None_iff extract_features_def body_undecodable body_short_clip)
     (simp add: extract_features_body_def demo_env_def)




text \<open>
  C9 as stated fails: a run whose decoder raises and a run that decodes but whose chroma
  transform raises return the same outcome.
\<close>

theorem decoder_failure_counterexample:
  "librosa_load undecodable_env ''song.wav'' = Inl (LibraryError ''NoBackendError'') \<and>
   librosa_load short_clip_env ''song.wav'' = Inr ([0, 1 / 2, 0, - (1 / 2)], 22050) \<and>
   chroma_stft short_clip_env [0, 1 / 2, 0, - (1 / 2)] 22050 = Inl (LibraryError ''ParameterError'') \<and>
   extract_features undecodable_env ''song.wav'' = extract_features short_clip_env ''song.wav'' \<and>
   analyze_song undecodable_env ''song.wav'' = analyze_song short_clip_env ''song.wav''"
  using analyze_song_failed_runs
  by (simp add: extract_features_def body_undecodable body_short_clip)
     (simp add: undecodable_env_def short_clip_env_def demo_env_def)

text \<open>
  C9, as amended. A failure of the decoding collaborator (the path does not exist, or
  loading raises) makes feature extraction and the analysis return None, and so does a
  failure of any later stage of the pipeline: the caller receives the same outcome.
\<close>

theorem decoder_failure_outcome:
  "(\<not> os_path_exists e p \<or> librosa_load e p = Inl err \<longrightarrow>
      extract_features e p = None \<and> analyze_song e p = Inr None) \<and>
   (librosa_load e p = Inr (y, sr) \<and>
    (beat_track e y sr = Inl err \<or> beat_tempo e y sr = Inl err \<or> chroma_stft e y sr = Inl err \<or>
     mfcc e y sr = Inl err \<or> spectral_centroid e y sr = Inl err \<or>
     zero_crossing_rate e y = Inl err \<or> spectral_rolloff e y sr = Inl err) \<longrightarrow>
      extract_features e p = None \<and> analyze_song e p = Inr None)"
proof (intro conjI impI)
  assume a: "\<not> os_path_exists e p \<or> librosa_load e p = Inl err"
  show "extract_features e p = None"
    by (rule stage_failure [where err = err]) (use a in blast)
  then show "analyze_song e p = Inr None" by (simp add: analyze_song_None_iff)
next
  assume a: "librosa_load e p = Inr (y, sr) \<and>
    (beat_track e y sr = Inl err \<or> beat_tempo e y sr = Inl err \<or> chroma_stft e y sr = Inl err \<or>
     mfcc e y sr = Inl err \<or> spectral_centroid e y sr = Inl err \<or>
     zero_crossing_rate e y = Inl err \<or> spectral_rolloff e y sr = Inl err)"
  show "extract_features e p = None"
    by (rule stage_failure [where err = err]) (use a in blast)
  then show "analyze_song e p = Inr None" by (simp add: analyze_song_None_iff)
qed

theorem decoder_failure_outcome_witness:
  "librosa_load undecodable_env ''song.wav'' = Inl (LibraryError ''NoBackendError'') \<and>
   extract_features undecodable_env ''song.wav'' = None \<and>
   analyze_song undecodable_env ''song.wav'' = Inr None"
  using decoder_failure_outcome [of undecodable_env "''song.wav''" "LibraryError ''NoBackendError''"]
  by (simp add: undecodable_env_def demo_env_def)

end
